theory Spec2Isabelle
  imports Main "HOL-Library.Word"
begin

section \<open>Wire messages and store records\<close>

type_synonym int64 = "64 word"

text \<open>
  Go's \<^verbatim>\<open>error\<close> values. \<open>ErrInvalidTTL\<close> is \<^verbatim>\<open>models.ErrInvalidTTL\<close>, the only
  error the handlers create themselves; the others are the error kinds the store and the
  transport hand back, and \<open>OtherError\<close> stands for any \<^verbatim>\<open>errors.New(msg)\<close>.
\<close>

datatype error =
    ErrInvalidTTL
  | ErrLockCollision
  | ErrResourceNotFound
  | ErrNotOwner
  | StoreError string
  | OtherError string

text \<open>
  Modelled from the spec: package \<^verbatim>\<open>models\<close> (the wire messages) and the record type
  \<^verbatim>\<open>db.Lock\<close> are not among the sources; their fields are the ones of the data model
  (Resource: key, owner, value, type; LockRecord: resource, ttl_seconds, modified_index,
  modified_id) and of the RPC table (FetchAll carries a type filter). The handlers use
  them through pointers, so a \<^verbatim>\<open>*models.Resource\<close> is a \<open>Resource option\<close> with \<open>None\<close> for
  \<^verbatim>\<open>nil\<close>.
\<close>

record Resource =
  Key :: string
  Owner :: string
  Value :: string
  Type :: string

record db_Lock =
  Resource :: "Resource option"
  TtlInSeconds :: int64
  ModifiedIndex :: int64
  ModifiedId :: string

record LockRequest =
  Resource :: "Resource option"
  TtlInSeconds :: int64

record ReleaseRequest =
  Resource :: "Resource option"

record FetchRequest =
  Key :: string

record FetchAllRequest =
  type_filter :: string

type_synonym LockResponse = unit

type_synonym ReleaseResponse = unit

record FetchResponse =
  Resource :: "Resource option"

record FetchAllResponse =
  Resources :: "Resource option list"

section \<open>The handler's collaborators\<close>

text \<open>
  \<^verbatim>\<open>db.LockDB\<close> and \<^verbatim>\<open>expiration.LockPick\<close> are interfaces: the handler works with
  any implementation. An implementation is a record of functions over its own state
  \<open>'db\<close> (resp. \<open>'lp\<close>); a method returning \<^verbatim>\<open>(*Lock, error)\<close> returns a pair in which
  either component may be \<^verbatim>\<open>nil\<close>. Note that \<^verbatim>\<open>FetchAll\<close> takes no argument besides
  the logger.
\<close>

record 'db LockDB =
  LockDB_Lock :: "Resource option \<Rightarrow> int64 \<Rightarrow> 'db \<Rightarrow> (db_Lock option \<times> error option) \<times> 'db"
  LockDB_Release :: "Resource option \<Rightarrow> 'db \<Rightarrow> error option \<times> 'db"
  LockDB_Fetch :: "string \<Rightarrow> 'db \<Rightarrow> (db_Lock option \<times> error option) \<times> 'db"
  LockDB_FetchAll :: "'db \<Rightarrow> (db_Lock option list \<times> error option) \<times> 'db"

record 'lp LockPick =
  LockPick_RegisterTTL :: "db_Lock option \<Rightarrow> 'lp \<Rightarrow> 'lp"

record ('db, 'lp) locketHandler =
  db :: "'db LockDB"
  lockPick :: "'lp LockPick"

text \<open>
  Everything a handler does besides returning: the log lines it writes and the calls it
  makes on its collaborators, in order.
\<close>

datatype event =
    Info string string
  | Called_Lock "Resource option" int64
  | Called_Release "Resource option"
  | Called_Fetch string
  | Called_FetchAll
  | Called_RegisterTTL "db_Lock option"

record ('db, 'lp) world =
  db_state :: 'db
  lockPick_state :: 'lp
  events :: "event list"

text \<open>
  What a handler hands back: Go's pair \<^verbatim>\<open>(response, err)\<close>, or a run-time panic (a
  \<^verbatim>\<open>nil\<close> pointer dereference).
\<close>

datatype 'a result = Return "'a option" "error option" | Panic

definition emit :: "event \<Rightarrow> ('db, 'lp) world \<Rightarrow> ('db, 'lp) world" where
  "emit e w = w\<lparr>events := events w @ [e]\<rparr>"

text \<open>\<^verbatim>\<open>logger := h.logger.Session(name, ...); logger.Info(msg)\<close>\<close>

definition logger_Info :: "string \<Rightarrow> string \<Rightarrow> ('db, 'lp) world \<Rightarrow> ('db, 'lp) world" where
  "logger_Info session msg w = emit (Info session msg) w"

definition call_Lock ::
  "('db, 'lp) locketHandler \<Rightarrow> Resource option \<Rightarrow> int64 \<Rightarrow> ('db, 'lp) world
   \<Rightarrow> (db_Lock option \<times> error option) \<times> ('db, 'lp) world" where
  "call_Lock h resource ttl w =
     (let (r, s) = LockDB_Lock (db h) resource ttl (db_state w)
      in (r, emit (Called_Lock resource ttl) (w\<lparr>db_state := s\<rparr>)))"

definition call_Release ::
  "('db, 'lp) locketHandler \<Rightarrow> Resource option \<Rightarrow> ('db, 'lp) world
   \<Rightarrow> error option \<times> ('db, 'lp) world" where
  "call_Release h resource w =
     (let (r, s) = LockDB_Release (db h) resource (db_state w)
      in (r, emit (Called_Release resource) (w\<lparr>db_state := s\<rparr>)))"

definition call_Fetch ::
  "('db, 'lp) locketHandler \<Rightarrow> string \<Rightarrow> ('db, 'lp) world
   \<Rightarrow> (db_Lock option \<times> error option) \<times> ('db, 'lp) world" where
  "call_Fetch h key w =
     (let (r, s) = LockDB_Fetch (db h) key (db_state w)
      in (r, emit (Called_Fetch key) (w\<lparr>db_state := s\<rparr>)))"

definition call_FetchAll ::
  "('db, 'lp) locketHandler \<Rightarrow> ('db, 'lp) world
   \<Rightarrow> (db_Lock option list \<times> error option) \<times> ('db, 'lp) world" where
  "call_FetchAll h w =
     (let (r, s) = LockDB_FetchAll (db h) (db_state w)
      in (r, emit Called_FetchAll (w\<lparr>db_state := s\<rparr>)))"

definition call_RegisterTTL ::
  "('db, 'lp) locketHandler \<Rightarrow> db_Lock option \<Rightarrow> ('db, 'lp) world \<Rightarrow> ('db, 'lp) world" where
  "call_RegisterTTL h lock w =
     emit (Called_RegisterTTL lock)
       (w\<lparr>lockPick_state := LockPick_RegisterTTL (lockPick h) lock (lockPick_state w)\<rparr>)"

section \<open>The handlers (handlers/handler.go)\<close>

text \<open>
  Each handler logs \<open>started\<close>, runs its body, and logs \<open>complete\<close> on every way out
  (\<^verbatim>\<open>defer logger.Info("complete")\<close>).
\<close>

definition Lock ::
  "('db, 'lp) locketHandler \<Rightarrow> LockRequest \<Rightarrow> ('db, 'lp) world
   \<Rightarrow> LockResponse result \<times> ('db, 'lp) world" where
  "Lock h req w =
     (let w1 = logger_Info ''lock'' ''started'' w;
          (r, w2) =
            (if sint (LockRequest.TtlInSeconds req) \<le> 0 then
               (Return None (Some ErrInvalidTTL), w1)
             else
               (let ((lock, err), w2) =
                      call_Lock h (LockRequest.Resource req) (LockRequest.TtlInSeconds req) w1
                in case err of
                     Some e \<Rightarrow> (Return None (Some e), w2)
                   | None \<Rightarrow> (Return (Some ()) None, call_RegisterTTL h lock w2)))
      in (r, logger_Info ''lock'' ''complete'' w2))"

definition Release ::
  "('db, 'lp) locketHandler \<Rightarrow> ReleaseRequest \<Rightarrow> ('db, 'lp) world
   \<Rightarrow> ReleaseResponse result \<times> ('db, 'lp) world" where
  "Release h req w =
     (let w1 = logger_Info ''release'' ''started'' w;
          (err, w2) = call_Release h (ReleaseRequest.Resource req) w1;
          r = (case err of
                 Some e \<Rightarrow> Return None (Some e)
               | None \<Rightarrow> Return (Some ()) None)
      in (r, logger_Info ''release'' ''complete'' w2))"

text \<open>\<^verbatim>\<open>lock.Resource\<close> reads through the pointer the store returned.\<close>

definition Fetch ::
  "('db, 'lp) locketHandler \<Rightarrow> FetchRequest \<Rightarrow> ('db, 'lp) world
   \<Rightarrow> FetchResponse result \<times> ('db, 'lp) world" where
  "Fetch h req w =
     (let w1 = logger_Info ''fetch'' ''started'' w;
          ((lock, err), w2) = call_Fetch h (FetchRequest.Key req) w1;
          r = (case err of
                 Some e \<Rightarrow> Return None (Some e)
               | None \<Rightarrow>
                   (case lock of
                      None \<Rightarrow> Panic
                    | Some l \<Rightarrow>
                        Return (Some \<lparr>FetchResponse.Resource = db_Lock.Resource l\<rparr>) None))
      in (r, logger_Info ''fetch'' ''complete'' w2))"

text \<open>
  The loop \<^verbatim>\<open>for _, lock := range locks { responses = append(responses, lock.Resource) }\<close>;
  \<open>None\<close> is the panic on a \<^verbatim>\<open>nil\<close> entry.
\<close>

fun append_resources ::
  "db_Lock option list \<Rightarrow> Resource option list \<Rightarrow> Resource option list option" where
  "append_resources [] responses = Some responses"
| "append_resources (None # locks) responses = None"
| "append_resources (Some lock # locks) responses =
     append_resources locks (responses @ [db_Lock.Resource lock])"

definition FetchAll ::
  "('db, 'lp) locketHandler \<Rightarrow> FetchAllRequest \<Rightarrow> ('db, 'lp) world
   \<Rightarrow> FetchAllResponse result \<times> ('db, 'lp) world" where
  "FetchAll h req w =
     (let w1 = logger_Info ''fetch-all'' ''started'' w;
          ((locks, err), w2) = call_FetchAll h w1;
          r = (case err of
                 Some e \<Rightarrow> Return None (Some e)
               | None \<Rightarrow>
                   (case append_resources locks [] of
                      None \<Rightarrow> Panic
                    | Some responses \<Rightarrow> Return (Some \<lparr>Resources = responses\<rparr>) None))
      in (r, logger_Info ''fetch-all'' ''complete'' w2))"

text \<open>
  A canned store and scheduler in the manner of the test fakes: every method returns what
  the fake was built with and counts nothing. The scheduler's state is the list of records
  registered so far.
\<close>

definition fakeLockDB ::
  "(db_Lock option \<times> error option) \<Rightarrow> error option \<Rightarrow> (db_Lock option list \<times> error option)
   \<Rightarrow> unit LockDB" where
  "fakeLockDB lockReturns releaseReturns fetchAllReturns =
     \<lparr>LockDB_Lock = (\<lambda>resource ttl s. (lockReturns, s)),
      LockDB_Release = (\<lambda>resource s. (releaseReturns, s)),
      LockDB_Fetch = (\<lambda>key s. (lockReturns, s)),
      LockDB_FetchAll = (\<lambda>s. (fetchAllReturns, s))\<rparr>"

definition fakeLockPick :: "db_Lock option list LockPick" where
  "fakeLockPick = \<lparr>LockPick_RegisterTTL = (\<lambda>lock registered. registered @ [lock])\<rparr>"

definition fakeHandler ::
  "(db_Lock option \<times> error option) \<Rightarrow> error option \<Rightarrow> (db_Lock option list \<times> error option)
   \<Rightarrow> (unit, db_Lock option list) locketHandler" where
  "fakeHandler lockReturns releaseReturns fetchAllReturns =
     \<lparr>db = fakeLockDB lockReturns releaseReturns fetchAllReturns, lockPick = fakeLockPick\<rparr>"

definition world0 :: "(unit, db_Lock option list) world" where
  "world0 = \<lparr>db_state = (), lockPick_state = [], events = []\<rparr>"

definition jim :: Resource where
  "jim = \<lparr>Resource.Key = ''test'', Owner = ''jim'', Value = ''is pretty sweet.'', Type = ''lock''\<rparr>"

definition jims_lock :: db_Lock where
  "jims_lock = \<lparr>db_Lock.Resource = Some jim, TtlInSeconds = 5, ModifiedIndex = 1,
                ModifiedId = ''a''\<rparr>"

definition cell :: Resource where
  "cell = \<lparr>Resource.Key = ''cell-1'', Owner = ''rep'', Value = ''10.0.0.1:1801'', Type = ''presence''\<rparr>"

definition cells_lock :: db_Lock where
  "cells_lock = \<lparr>db_Lock.Resource = Some cell, TtlInSeconds = 15, ModifiedIndex = 3,
                 ModifiedId = ''b''\<rparr>"

text \<open>
  The filter as the specification words it, for comparison with \<open>FetchAll\<close>: a record
  matches when its type equals the filter, and the empty filter matches every record.
\<close>

definition spec_type_filter :: "string \<Rightarrow> db_Lock \<Rightarrow> bool" where
  "spec_type_filter f lock =
     (f = [] \<or> (case db_Lock.Resource lock of None \<Rightarrow> False | Some r \<Rightarrow> Type r = f))"

section \<open>The configuration file (cmd/locket/config)\<close>

text \<open>
  \<^verbatim>\<open>LocketConfig\<close> with its JSON tags. The two embedded structs come from other libraries;
  the test file shows the one field of each that the configuration file sets
  (\<^verbatim>\<open>log_level\<close>, \<^verbatim>\<open>debug_address\<close>). The loggregator configuration stays an opaque type
  \<open>'lg\<close>. Go's \<^verbatim>\<open>int\<close> is a 64-bit integer.
\<close>

type_synonym go_int = "64 word"

record LagerConfig =
  LogLevel :: string

record DebugServerConfig =
  DebugAddress :: string

record 'lg LocketConfig =
  CaFile :: string
  CertFile :: string
  ConsulCluster :: string
  DatabaseConnectionString :: string
  MaxOpenDatabaseConnections :: go_int
  DatabaseDriver :: string
  DropsondePort :: go_int
  KeyFile :: string
  ListenAddress :: string
  SQLCACertFile :: string
  LoggregatorConfig :: 'lg
  DebugServerConfig :: DebugServerConfig
  LagerConfig :: LagerConfig

text \<open>
  \<^verbatim>\<open>encoding/json\<close> is library code. Its reading of a document is a parameter
  (\<open>json_fields\<close> below) that yields an error, or the fields the document sets, in the
  document's order and already typed: one constructor per JSON tag of the struct. A key the
  struct does not know, or a \<^verbatim>\<open>null\<close>, sets nothing and so yields no entry. The entry
  of the nested loggregator object carries that configuration as it stands once the object
  has been read into it.
\<close>

datatype 'lg json_field =
    F_ca_file string
  | F_cert_file string
  | F_consul_cluster string
  | F_database_connection_string string
  | F_max_open_database_connections go_int
  | F_database_driver string
  | F_dropsonde_port go_int
  | F_key_file string
  | F_listen_address string
  | F_sql_ca_cert_file string
  | F_loggregator 'lg
  | F_debug_address string
  | F_log_level string

fun key_of :: "'lg json_field \<Rightarrow> string" where
  "key_of (F_ca_file v) = ''ca_file''"
| "key_of (F_cert_file v) = ''cert_file''"
| "key_of (F_consul_cluster v) = ''consul_cluster''"
| "key_of (F_database_connection_string v) = ''database_connection_string''"
| "key_of (F_max_open_database_connections v) = ''max_open_database_connections''"
| "key_of (F_database_driver v) = ''database_driver''"
| "key_of (F_dropsonde_port v) = ''dropsonde_port''"
| "key_of (F_key_file v) = ''key_file''"
| "key_of (F_listen_address v) = ''listen_address''"
| "key_of (F_sql_ca_cert_file v) = ''sql_ca_cert_file''"
| "key_of (F_loggregator v) = ''loggregator''"
| "key_of (F_debug_address v) = ''debug_address''"
| "key_of (F_log_level v) = ''log_level''"

text \<open>Storing one decoded field into the struct; every other field is left as it is.\<close>

fun store_field :: "'lg json_field \<Rightarrow> 'lg LocketConfig \<Rightarrow> 'lg LocketConfig" where
  "store_field (F_ca_file v) c = c\<lparr>CaFile := v\<rparr>"
| "store_field (F_cert_file v) c = c\<lparr>CertFile := v\<rparr>"
| "store_field (F_consul_cluster v) c = c\<lparr>ConsulCluster := v\<rparr>"
| "store_field (F_database_connection_string v) c = c\<lparr>DatabaseConnectionString := v\<rparr>"
| "store_field (F_max_open_database_connections v) c = c\<lparr>MaxOpenDatabaseConnections := v\<rparr>"
| "store_field (F_database_driver v) c = c\<lparr>DatabaseDriver := v\<rparr>"
| "store_field (F_dropsonde_port v) c = c\<lparr>DropsondePort := v\<rparr>"
| "store_field (F_key_file v) c = c\<lparr>KeyFile := v\<rparr>"
| "store_field (F_listen_address v) c = c\<lparr>ListenAddress := v\<rparr>"
| "store_field (F_sql_ca_cert_file v) c = c\<lparr>SQLCACertFile := v\<rparr>"
| "store_field (F_loggregator v) c = c\<lparr>LoggregatorConfig := v\<rparr>"
| "store_field (F_debug_address v) c =
     c\<lparr>DebugServerConfig := (DebugServerConfig c)\<lparr>DebugAddress := v\<rparr>\<rparr>"
| "store_field (F_log_level v) c = c\<lparr>LagerConfig := (LagerConfig c)\<lparr>LogLevel := v\<rparr>\<rparr>"

text \<open>Reading a field of the struct back by its JSON tag.\<close>

definition get_field :: "string \<Rightarrow> 'lg LocketConfig \<Rightarrow> 'lg json_field option" where
  "get_field k c =
     (if k = ''ca_file'' then Some (F_ca_file (CaFile c))
      else if k = ''cert_file'' then Some (F_cert_file (CertFile c))
      else if k = ''consul_cluster'' then Some (F_consul_cluster (ConsulCluster c))
      else if k = ''database_connection_string'' then
        Some (F_database_connection_string (DatabaseConnectionString c))
      else if k = ''max_open_database_connections'' then
        Some (F_max_open_database_connections (MaxOpenDatabaseConnections c))
      else if k = ''database_driver'' then Some (F_database_driver (DatabaseDriver c))
      else if k = ''dropsonde_port'' then Some (F_dropsonde_port (DropsondePort c))
      else if k = ''key_file'' then Some (F_key_file (KeyFile c))
      else if k = ''listen_address'' then Some (F_listen_address (ListenAddress c))
      else if k = ''sql_ca_cert_file'' then Some (F_sql_ca_cert_file (SQLCACertFile c))
      else if k = ''loggregator'' then Some (F_loggregator (LoggregatorConfig c))
      else if k = ''debug_address'' then
        Some (F_debug_address (DebugAddress (DebugServerConfig c)))
      else if k = ''log_level'' then Some (F_log_level (LogLevel (LagerConfig c)))
      else None)"

text \<open>
  What \<^verbatim>\<open>NewLocketConfig\<close> takes from outside: the file system (\<^verbatim>\<open>os.Open\<close> gives the file's
  contents or an error), the JSON reader, \<^verbatim>\<open>lagerflags.DefaultLagerConfig()\<close> and the zero
  value of the loggregator configuration.
\<close>

record 'lg config_env =
  os_Open :: "string \<Rightarrow> error + string"
  json_fields :: "string \<Rightarrow> error + 'lg json_field list"
  DefaultLagerConfig :: LagerConfig
  zero_Loggregator :: 'lg

text \<open>\<^verbatim>\<open>LocketConfig{}\<close>\<close>

definition zero_LocketConfig :: "'lg config_env \<Rightarrow> 'lg LocketConfig" where
  "zero_LocketConfig env =
     \<lparr>CaFile = [], CertFile = [], ConsulCluster = [], DatabaseConnectionString = [],
      MaxOpenDatabaseConnections = 0, DatabaseDriver = [], DropsondePort = 0, KeyFile = [],
      ListenAddress = [], SQLCACertFile = [], LoggregatorConfig = zero_Loggregator env,
      DebugServerConfig = \<lparr>DebugAddress = []\<rparr>, LagerConfig = \<lparr>LogLevel = []\<rparr>\<rparr>"

definition DefaultLocketConfig :: "'lg config_env \<Rightarrow> 'lg LocketConfig" where
  "DefaultLocketConfig env =
     (zero_LocketConfig env)\<lparr>LagerConfig := DefaultLagerConfig env, DatabaseDriver := ''mysql''\<rparr>"

text \<open>
  \<^verbatim>\<open>decoder.Decode(&locketConfig)\<close> writes into the struct it is given. After an error the
  struct's contents are of no interest: the caller drops them.
\<close>

definition Decode ::
  "'lg config_env \<Rightarrow> string \<Rightarrow> 'lg LocketConfig \<Rightarrow> error option \<times> 'lg LocketConfig" where
  "Decode env document c =
     (case json_fields env document of
        Inl err \<Rightarrow> (Some err, c)
      | Inr fs \<Rightarrow> (None, fold store_field fs c))"

definition NewLocketConfig :: "'lg config_env \<Rightarrow> string \<Rightarrow> 'lg LocketConfig \<times> error option" where
  "NewLocketConfig env configPath =
     (let locketConfig = DefaultLocketConfig env
      in case os_Open env configPath of
           Inl err \<Rightarrow> (zero_LocketConfig env, Some err)
         | Inr configFile \<Rightarrow>
             (case Decode env configFile locketConfig of
                (Some err, decoded) \<Rightarrow> (zero_LocketConfig env, Some err)
              | (None, decoded) \<Rightarrow> (decoded, None)))"

text \<open>
  The files of the test: a missing path, an empty object, \<^verbatim>\<open>{{\<close>, and a file that sets
  three fields.
\<close>

definition configData :: string where
  \<open>configData = ''{"log_level": "debug", "listen_address": "1.2.3.4:9090", "database_driver": "postgres"}''\<close>

definition test_env :: "unit config_env" where
  "test_env =
     \<lparr>os_Open = (\<lambda>path.
        if path = ''config-file'' then Inr configData
        else if path = ''empty-object'' then Inr ''{}''
        else if path = ''invalid-json'' then Inr ''{{''
        else Inl (OtherError ''open: no such file or directory'')),
      json_fields = (\<lambda>document.
        if document = configData then
          Inr [F_log_level ''debug'', F_listen_address ''1.2.3.4:9090'',
               F_database_driver ''postgres'']
        else if document = ''{}'' then Inr []
        else Inl (OtherError ''invalid character'')),
      DefaultLagerConfig = \<lparr>LogLevel = ''info''\<rparr>,
      zero_Loggregator = ()\<rparr>"

section \<open>The lock runner (client side)\<close>

text \<open>
  Modelled from the spec: the Lock Runner (package \<^verbatim>\<open>lock\<close>) is not among the sources, only
  its test is. The definitions of this section follow the specification's state machine:
  ACQUIRING calls Lock and, on failure, sleeps the retry interval on the injected clock and
  retries; the first success signals ready and enters HOLDING; in HOLDING every tick of
  the retry interval renews with another Lock call and any failure of a renewal ends the
  runner with that error; cancellation leads from HOLDING to RELEASING (one Release call
  whose result is ignored) and from ACQUIRING directly to DONE.

  The runner is suspended on one thing at a time (\<open>pending\<close>): an RPC in flight, a sleep
  until a reading of the clock, or nothing after it has returned. The environment drives
  it with signals: the answer of the RPC in flight, an increment of the fake clock, the
  cancellation. A signal that does not fit what the runner waits for changes nothing.
  Cancellation while a renewal is in flight abandons that RPC (the transport cancels it).
\<close>

type_synonym duration = nat

record LockRunner =
  resource :: "Resource option"
  ttl :: int64
  retry_interval :: duration

datatype phase = ACQUIRING | HOLDING | RELEASING | DONE | FAILED

datatype pending = Lock_in_flight | Asleep_until nat | Release_in_flight | Returned "error option"

datatype signal =
    Lock_returns "error option"
  | Release_returns "error option"
  | Clock_increment duration
  | Cancel

datatype action =
    Call_Lock "Resource option" int64
  | Clock_sleep duration
  | Close_ready
  | Call_Release "Resource option"

record runner_state =
  phase :: phase
  pending :: pending
  now :: nat
  actions :: "action list"

definition do_actions :: "action list \<Rightarrow> runner_state \<Rightarrow> runner_state" where
  "do_actions as s = s\<lparr>actions := actions s @ as\<rparr>"

definition call_lock :: "LockRunner \<Rightarrow> runner_state \<Rightarrow> runner_state" where
  "call_lock r s =
     do_actions [Call_Lock (resource r) (ttl r)] (s\<lparr>pending := Lock_in_flight\<rparr>)"

definition sleep_interval :: "LockRunner \<Rightarrow> runner_state \<Rightarrow> runner_state" where
  "sleep_interval r s =
     do_actions [Clock_sleep (retry_interval r)]
       (s\<lparr>pending := Asleep_until (now s + retry_interval r)\<rparr>)"

text \<open>Modelled from the spec: the runner starts in ACQUIRING by calling Lock at once.\<close>

definition start :: "LockRunner \<Rightarrow> nat \<Rightarrow> runner_state" where
  "start r t0 =
     call_lock r \<lparr>phase = ACQUIRING, pending = Lock_in_flight, now = t0, actions = []\<rparr>"

text \<open>Modelled from the spec: one transition of the state machine.\<close>

fun step :: "LockRunner \<Rightarrow> runner_state \<Rightarrow> signal \<Rightarrow> runner_state" where
  "step r s (Lock_returns err) =
     (if pending s \<noteq> Lock_in_flight then s
      else if phase s = ACQUIRING then
        (case err of
           None \<Rightarrow> sleep_interval r (do_actions [Close_ready] (s\<lparr>phase := HOLDING\<rparr>))
         | Some e \<Rightarrow> sleep_interval r s)
      else if phase s = HOLDING then
        (case err of
           None \<Rightarrow> sleep_interval r s
         | Some e \<Rightarrow> s\<lparr>phase := FAILED, pending := Returned (Some e)\<rparr>)
      else s)"
| "step r s (Clock_increment d) =
     (let s' = s\<lparr>now := now s + d\<rparr>
      in case pending s of
           Asleep_until t \<Rightarrow>
             (if t \<le> now s' \<and> (phase s = ACQUIRING \<or> phase s = HOLDING)
              then call_lock r s' else s')
         | _ \<Rightarrow> s')"
| "step r s Cancel =
     (if phase s = ACQUIRING then s\<lparr>phase := DONE, pending := Returned None\<rparr>
      else if phase s = HOLDING then
        do_actions [Call_Release (resource r)]
          (s\<lparr>phase := RELEASING, pending := Release_in_flight\<rparr>)
      else s)"
| "step r s (Release_returns err) =
     (if phase s = RELEASING \<and> pending s = Release_in_flight
      then s\<lparr>phase := DONE, pending := Returned None\<rparr>
      else s)"

text \<open>Modelled from the spec: the runner's reaction to a sequence of signals.\<close>

definition run :: "LockRunner \<Rightarrow> runner_state \<Rightarrow> signal list \<Rightarrow> runner_state" where
  "run r s sigs = foldl (step r) s sigs"

text \<open>The runner of the test: resource, ttl 5 and a retry interval.\<close>

definition test_runner :: LockRunner where
  "test_runner = \<lparr>resource = Some jim, ttl = 5, retry_interval = 1000\<rparr>"

definition no_lock_for_you :: error where
  "no_lock_for_you = OtherError ''no-lock-for-you''"

fun is_Call_Lock :: "action \<Rightarrow> bool" where
  "is_Call_Lock (Call_Lock res t) = True"
| "is_Call_Lock a = False"

fun is_Call_Release :: "action \<Rightarrow> bool" where
  "is_Call_Release (Call_Release res) = True"
| "is_Call_Release a = False"

section \<open>Properties of the handlers\<close>

lemmas handler_defs = Lock_def Release_def Fetch_def FetchAll_def logger_Info_def emit_def
  call_Lock_def call_Release_def call_Fetch_def call_FetchAll_def call_RegisterTTL_def

lemmas fake_defs = fakeHandler_def fakeLockDB_def fakeLockPick_def world0_def

lemma append_resources_map:
  "append_resources (map Some locks) responses = Some (responses @ map db_Lock.Resource locks)"
  by (induction locks arbitrary: responses) simp_all

lemma append_resources_nil_entry:
  "None \<in> set locks \<Longrightarrow> append_resources locks responses = None"
  by (induction locks responses rule: append_resources.induct) auto

text \<open>
  Claim C1. A Lock request with a positive ttl makes exactly one store call; when the store
  answers without an error the handler then calls RegisterTTL once, with the very record
  the store returned, and returns the empty response with no error; when the store
  answers with an error, RegisterTTL is not called and the scheduler is left as it was.
\<close>

theorem Lock_reserve_then_register:
  assumes ttl: "0 < sint (LockRequest.TtlInSeconds req)"
    and store: "LockDB_Lock (db h) (LockRequest.Resource req) (LockRequest.TtlInSeconds req)
                  (db_state w) = ((lock, err), s)"
  shows "Lock h req w =
     (case err of
        None \<Rightarrow>
          (Return (Some ()) None,
           w\<lparr>db_state := s,
             lockPick_state := LockPick_RegisterTTL (lockPick h) lock (lockPick_state w),
             events := events w @
               [Info ''lock'' ''started'',
                Called_Lock (LockRequest.Resource req) (LockRequest.TtlInSeconds req),
                Called_RegisterTTL lock,
                Info ''lock'' ''complete'']\<rparr>)
      | Some e \<Rightarrow>
          (Return None (Some e),
           w\<lparr>db_state := s,
             events := events w @
               [Info ''lock'' ''started'',
                Called_Lock (LockRequest.Resource req) (LockRequest.TtlInSeconds req),
                Info ''lock'' ''complete'']\<rparr>))"
  using ttl store by (simp add: handler_defs split: option.split)

theorem Lock_reserve_then_register_witness:
  "0 < sint (5 :: int64) \<and>
   Lock (fakeHandler (Some jims_lock, None) None ([], None))
     \<lparr>LockRequest.Resource = Some jim, TtlInSeconds = 5\<rparr> world0 =
     (Return (Some ()) None,
      \<lparr>db_state = (), lockPick_state = [Some jims_lock],
       events = [Info ''lock'' ''started'', Called_Lock (Some jim) 5,
                 Called_RegisterTTL (Some jims_lock), Info ''lock'' ''complete'']\<rparr>) \<and>
   Lock (fakeHandler (None, Some ErrLockCollision) None ([], None))
     \<lparr>LockRequest.Resource = Some jim, TtlInSeconds = 5\<rparr> world0 =
     (Return None (Some ErrLockCollision),
      \<lparr>db_state = (), lockPick_state = [],
       events = [Info ''lock'' ''started'', Called_Lock (Some jim) 5,
                 Info ''lock'' ''complete'']\<rparr>)"
  using
    Lock_reserve_then_register [of "\<lparr>LockRequest.Resource = Some jim, TtlInSeconds = 5\<rparr>"
      "fakeHandler (Some jims_lock, None) None ([], None)" world0 "Some jims_lock" None "()"]
    Lock_reserve_then_register [of "\<lparr>LockRequest.Resource = Some jim, TtlInSeconds = 5\<rparr>"
      "fakeHandler (None, Some ErrLockCollision) None ([], None)" world0 None
      "Some ErrLockCollision" "()"]
  by (simp add: fake_defs)


lemma Lock_accepted_result:
  "0 < sint (LockRequest.TtlInSeconds req) \<Longrightarrow>
   fst (Lock h req w) =
     (case snd (fst (LockDB_Lock (db h) (LockRequest.Resource req)
                       (LockRequest.TtlInSeconds req) (db_state w))) of
        None \<Rightarrow> Return (Some ()) None
      | Some e \<Rightarrow> Return None (Some e))"
  by (simp add: handler_defs split: option.split prod.split)



lemma FetchAll_records:
  "LockDB_FetchAll (db h) (db_state w) = ((map Some locks, None), s) \<Longrightarrow>
   FetchAll h req w =
     (Return (Some \<lparr>Resources = map db_Lock.Resource locks\<rparr>) None,
      w\<lparr>db_state := s,
        events := events w @
          [Info ''fetch-all'' ''started'', Called_FetchAll, Info ''fetch-all'' ''complete'']\<rparr>)"
  by (simp add: handler_defs append_resources_map)

text \<open>
  Claim C3, as amended. Whatever the request's type filter, the returned resources are the
  resources of all the records the store returned: every filter behaves as the empty,
  match-all filter of the specification.
\<close>

theorem FetchAll_ignores_type_filter:
  assumes "LockDB_FetchAll (db h) (db_state w) = ((map Some locks, None), s)"
  shows "fst (FetchAll h req w) =
     Return (Some \<lparr>Resources = map db_Lock.Resource (filter (spec_type_filter []) locks)\<rparr>) None"
  using FetchAll_records [OF assms] by (simp add: spec_type_filter_def)

theorem FetchAll_ignores_type_filter_witness:
  "fst (FetchAll (fakeHandler (None, None) None ([Some jims_lock, Some cells_lock], None))
     \<lparr>type_filter = ''lock''\<rparr> world0) =
   Return (Some \<lparr>Resources = [Some jim, Some cell]\<rparr>) None"
  using FetchAll_ignores_type_filter
    [of "fakeHandler (None, None) None ([Some jims_lock, Some cells_lock], None)" world0
        "[jims_lock, cells_lock]" "()" "\<lparr>type_filter = ''lock''\<rparr>"]
  by (simp add: fake_defs spec_type_filter_def jims_lock_def cells_lock_def)

text \<open>
  Claim C3 as stated fails: with a lock and a presence record in the store, a request
  filtering on type \<open>lock\<close> is answered with both.
\<close>

theorem FetchAll_type_filter_counterexample:
  "fst (FetchAll (fakeHandler (None, None) None ([Some jims_lock, Some cells_lock], None))
     \<lparr>type_filter = ''lock''\<rparr> world0) =
     Return (Some \<lparr>Resources = [Some jim, Some cell]\<rparr>) None \<and>
   map db_Lock.Resource (filter (spec_type_filter ''lock'') [jims_lock, cells_lock]) = [Some jim] \<and>
   fst (FetchAll (fakeHandler (None, None) None ([Some jims_lock, Some cells_lock], None))
     \<lparr>type_filter = ''lock''\<rparr> world0) \<noteq>
     Return (Some \<lparr>Resources =
        map db_Lock.Resource (filter (spec_type_filter ''lock'') [jims_lock, cells_lock])\<rparr>) None"
  by (simp add: handler_defs fake_defs spec_type_filter_def jims_lock_def cells_lock_def
      jim_def cell_def)

text \<open>
  Claim C4. When the store call of Lock (made for a positive ttl), Release, Fetch or
  FetchAll answers with an error, the handler returns a nil response and that same error.
\<close>

theorem store_errors_returned_verbatim:
  "(0 < sint (LockRequest.TtlInSeconds lreq) \<and>
    snd (fst (LockDB_Lock (db h) (LockRequest.Resource lreq) (LockRequest.TtlInSeconds lreq)
      (db_state w))) = Some e \<longrightarrow>
      fst (Lock h lreq w) = Return None (Some e)) \<and>
   (fst (LockDB_Release (db h) (ReleaseRequest.Resource rreq) (db_state w)) = Some e \<longrightarrow>
      fst (Release h rreq w) = Return None (Some e)) \<and>
   (snd (fst (LockDB_Fetch (db h) (FetchRequest.Key freq) (db_state w))) = Some e \<longrightarrow>
      fst (Fetch h freq w) = Return None (Some e)) \<and>
   (snd (fst (LockDB_FetchAll (db h) (db_state w))) = Some e \<longrightarrow>
      fst (FetchAll h areq w) = Return None (Some e))"
proof (intro conjI impI)
  assume "0 < sint (LockRequest.TtlInSeconds lreq) \<and>
    snd (fst (LockDB_Lock (db h) (LockRequest.Resource lreq) (LockRequest.TtlInSeconds lreq)
      (db_state w))) = Some e"
  then show "fst (Lock h lreq w) = Return None (Some e)"
    by (simp add: Lock_accepted_result)
next
  assume "fst (LockDB_Release (db h) (ReleaseRequest.Resource rreq) (db_state w)) = Some e"
  then show "fst (Release h rreq w) = Return None (Some e)"
    by (auto simp add: handler_defs split: prod.split)
next
  assume "snd (fst (LockDB_Fetch (db h) (FetchRequest.Key freq) (db_state w))) = Some e"
  then show "fst (Fetch h freq w) = Return None (Some e)"
    by (auto simp add: handler_defs split: prod.split)
next
  assume "snd (fst (LockDB_FetchAll (db h) (db_state w))) = Some e"
  then show "fst (FetchAll h areq w) = Return None (Some e)"
    by (auto simp add: handler_defs split: prod.split)
qed

theorem store_errors_returned_verbatim_witness:
  "fst (Lock (fakeHandler (Some jims_lock, Some ErrLockCollision) (Some ErrLockCollision)
          ([Some jims_lock], Some ErrLockCollision))
        \<lparr>LockRequest.Resource = Some jim, TtlInSeconds = 5\<rparr> world0) =
     Return None (Some ErrLockCollision) \<and>
   fst (Release (fakeHandler (Some jims_lock, Some ErrLockCollision) (Some ErrLockCollision)
          ([Some jims_lock], Some ErrLockCollision))
        \<lparr>ReleaseRequest.Resource = Some jim\<rparr> world0) =
     Return None (Some ErrLockCollision) \<and>
   fst (Fetch (fakeHandler (Some jims_lock, Some ErrLockCollision) (Some ErrLockCollision)
          ([Some jims_lock], Some ErrLockCollision))
        \<lparr>FetchRequest.Key = ''test''\<rparr> world0) =
     Return None (Some ErrLockCollision) \<and>
   fst (FetchAll (fakeHandler (Some jims_lock, Some ErrLockCollision) (Some ErrLockCollision)
          ([Some jims_lock], Some ErrLockCollision))
        \<lparr>type_filter = []\<rparr> world0) =
     Return None (Some ErrLockCollision)"
  using store_errors_returned_verbatim
    [of "\<lparr>LockRequest.Resource = Some jim, TtlInSeconds = 5\<rparr>"
        "fakeHandler (Some jims_lock, Some ErrLockCollision) (Some ErrLockCollision)
          ([Some jims_lock], Some ErrLockCollision)"
        world0 ErrLockCollision "\<lparr>ReleaseRequest.Resource = Some jim\<rparr>"
        "\<lparr>FetchRequest.Key = ''test''\<rparr>" "\<lparr>type_filter = []\<rparr>"]
  by (simp add: fake_defs)

text \<open>
  Claim C5. When the store resolves the key to a record, the response of Fetch carries that
  record's resource and nothing else. In every case Fetch makes one store call, the
  store's own Fetch, and no scheduler call: the store's state afterwards is the one that
  call left.
\<close>

theorem Fetch_returns_the_record:
  "(LockDB_Fetch (db h) (FetchRequest.Key req) (db_state w) = ((Some lock, None), s) \<longrightarrow>
      fst (Fetch h req w) =
        Return (Some \<lparr>FetchResponse.Resource = db_Lock.Resource lock\<rparr>) None) \<and>
   snd (Fetch h req w) =
     w\<lparr>db_state := snd (LockDB_Fetch (db h) (FetchRequest.Key req) (db_state w)),
       events := events w @
         [Info ''fetch'' ''started'', Called_Fetch (FetchRequest.Key req),
          Info ''fetch'' ''complete'']\<rparr>"
  by (simp add: handler_defs split: prod.split)

theorem Fetch_returns_the_record_witness:
  "fst (Fetch (fakeHandler (Some jims_lock, None) None ([], None))
     \<lparr>FetchRequest.Key = ''test''\<rparr> world0) =
     Return (Some \<lparr>FetchResponse.Resource = Some jim\<rparr>) None \<and>
   snd (Fetch (fakeHandler (Some jims_lock, None) None ([], None))
     \<lparr>FetchRequest.Key = ''test''\<rparr> world0) =
     \<lparr>db_state = (), lockPick_state = [],
      events = [Info ''fetch'' ''started'', Called_Fetch ''test'', Info ''fetch'' ''complete'']\<rparr>"
  using Fetch_returns_the_record
    [of "fakeHandler (Some jims_lock, None) None ([], None)" "\<lparr>FetchRequest.Key = ''test''\<rparr>"
        world0 jims_lock "()"]
  by (simp add: fake_defs jims_lock_def)

text \<open>
  Claim C10. When the store answers FetchAll with records and no error, the response lists
  the resource of each record, one per record and in the store's order; with no records
  the response has an empty list and no error.
\<close>

theorem FetchAll_one_resource_per_record:
  assumes "LockDB_FetchAll (db h) (db_state w) = ((map Some locks, None), s)"
  shows "fst (FetchAll h req w) =
           Return (Some \<lparr>Resources = map db_Lock.Resource locks\<rparr>) None \<and>
         (locks = [] \<longrightarrow> fst (FetchAll h req w) = Return (Some \<lparr>Resources = []\<rparr>) None)"
  using FetchAll_records [OF assms] by simp

theorem FetchAll_one_resource_per_record_witness:
  "fst (FetchAll (fakeHandler (None, None) None ([Some cells_lock, Some jims_lock], None))
     \<lparr>type_filter = []\<rparr> world0) =
     Return (Some \<lparr>Resources = [Some cell, Some jim]\<rparr>) None \<and>
   fst (FetchAll (fakeHandler (None, None) None ([], None)) \<lparr>type_filter = []\<rparr> world0) =
     Return (Some \<lparr>Resources = []\<rparr>) None"
  using
    FetchAll_one_resource_per_record
      [of "fakeHandler (None, None) None ([Some cells_lock, Some jims_lock], None)" world0
          "[cells_lock, jims_lock]" "()" "\<lparr>type_filter = []\<rparr>"]
    FetchAll_one_resource_per_record
      [of "fakeHandler (None, None) None ([], None)" world0 "[]" "()" "\<lparr>type_filter = []\<rparr>"]
  by (simp add: fake_defs jims_lock_def cells_lock_def)

section \<open>Properties of the configuration loader\<close>

lemma field_store_other:
  "key_of f \<noteq> k \<Longrightarrow> get_field k (store_field f c) = get_field k c"
  by (cases f) (simp_all add: get_field_def)

lemma field_store_same: "get_field (key_of f) (store_field f c) = Some f"
  by (cases f) (simp_all add: get_field_def)

lemma field_fold_absent:
  "k \<notin> key_of ` set fs \<Longrightarrow> get_field k (fold store_field fs c) = get_field k c"
proof (induction fs arbitrary: c)
  case Nil
  then show ?case by simp
next
  case (Cons f fs)
  then have "key_of f \<noteq> k" and "k \<notin> key_of ` set fs" by auto
  then show ?case using Cons.IH by (simp add: field_store_other)
qed

lemma field_fold_present:
  "key_of f \<notin> key_of ` set fs2 \<Longrightarrow>
   get_field (key_of f) (fold store_field (fs1 @ f # fs2) c) = Some f"
  by (simp add: field_fold_absent field_store_same)

lemma NewLocketConfig_open_fails:
  "os_Open env p = Inl e \<Longrightarrow> NewLocketConfig env p = (zero_LocketConfig env, Some e)"
  by (simp add: NewLocketConfig_def)

lemma NewLocketConfig_decode_fails:
  "os_Open env p = Inr doc \<Longrightarrow> json_fields env doc = Inl e \<Longrightarrow>
   NewLocketConfig env p = (zero_LocketConfig env, Some e)"
  by (simp add: NewLocketConfig_def Decode_def)

lemma NewLocketConfig_decoded:
  "os_Open env p = Inr doc \<Longrightarrow> json_fields env doc = Inr fs \<Longrightarrow>
   NewLocketConfig env p = (fold store_field fs (DefaultLocketConfig env), None)"
  by (simp add: NewLocketConfig_def Decode_def)

lemma DatabaseDriver_get_field:
  "get_field ''database_driver'' c = get_field ''database_driver'' c' \<Longrightarrow>
   DatabaseDriver c = DatabaseDriver c'"
  by (simp add: get_field_def)

lemma LagerConfig_get_field:
  "get_field ''log_level'' c = get_field ''log_level'' c' \<Longrightarrow> LagerConfig c = LagerConfig c'"
  by (simp add: get_field_def)

text \<open>
  Claim C9. When the file cannot be opened, or its contents do not decode, NewLocketConfig
  returns the zero-value configuration with that (non-nil) error. When both succeed it
  returns no error, every field the file does not set has the value of the default
  configuration (so an unset database driver is \<open>mysql\<close> and an unset log level leaves the
  default lager configuration), and every field the file sets has the value the file
  gives it (the last one, should the file set it twice).
\<close>

theorem NewLocketConfig_errors_and_defaults:
  "(os_Open env p = Inl e \<longrightarrow> NewLocketConfig env p = (zero_LocketConfig env, Some e)) \<and>
   (os_Open env p = Inr doc \<and> json_fields env doc = Inl e \<longrightarrow>
      NewLocketConfig env p = (zero_LocketConfig env, Some e)) \<and>
   (os_Open env p = Inr doc \<and> json_fields env doc = Inr fs \<longrightarrow>
      snd (NewLocketConfig env p) = None \<and>
      (\<forall>k. k \<notin> key_of ` set fs \<longrightarrow>
         get_field k (fst (NewLocketConfig env p)) = get_field k (DefaultLocketConfig env)) \<and>
      (''database_driver'' \<notin> key_of ` set fs \<longrightarrow>
         DatabaseDriver (fst (NewLocketConfig env p)) = ''mysql'') \<and>
      (''log_level'' \<notin> key_of ` set fs \<longrightarrow>
         LagerConfig (fst (NewLocketConfig env p)) = DefaultLagerConfig env) \<and>
      (\<forall>f fs1 fs2. fs = fs1 @ f # fs2 \<and> key_of f \<notin> key_of ` set fs2 \<longrightarrow>
         get_field (key_of f) (fst (NewLocketConfig env p)) = Some f))"
proof (intro conjI impI allI)
  assume "os_Open env p = Inl e"
  then show "NewLocketConfig env p = (zero_LocketConfig env, Some e)"
    by (rule NewLocketConfig_open_fails)
next
  assume "os_Open env p = Inr doc \<and> json_fields env doc = Inl e"
  then show "NewLocketConfig env p = (zero_LocketConfig env, Some e)"
    by (simp add: NewLocketConfig_decode_fails)
next
  assume a: "os_Open env p = Inr doc \<and> json_fields env doc = Inr fs"
  then show "snd (NewLocketConfig env p) = None"
    by (simp add: NewLocketConfig_decoded)
next
  fix k
  assume a: "os_Open env p = Inr doc \<and> json_fields env doc = Inr fs"
    and k: "k \<notin> key_of ` set fs"
  from a have "fst (NewLocketConfig env p) = fold store_field fs (DefaultLocketConfig env)"
    by (simp add: NewLocketConfig_decoded)
  then show "get_field k (fst (NewLocketConfig env p)) = get_field k (DefaultLocketConfig env)"
    using k by (simp add: field_fold_absent)
next
  assume a: "os_Open env p = Inr doc \<and> json_fields env doc = Inr fs"
    and k: "''database_driver'' \<notin> key_of ` set fs"
  from a have "fst (NewLocketConfig env p) = fold store_field fs (DefaultLocketConfig env)"
    by (simp add: NewLocketConfig_decoded)
  then have "DatabaseDriver (fst (NewLocketConfig env p)) =
      DatabaseDriver (DefaultLocketConfig env)"
    using k by (intro DatabaseDriver_get_field) (simp add: field_fold_absent)
  then show "DatabaseDriver (fst (NewLocketConfig env p)) = ''mysql''"
    by (simp add: DefaultLocketConfig_def)
next
  assume a: "os_Open env p = Inr doc \<and> json_fields env doc = Inr fs"
    and k: "''log_level'' \<notin> key_of ` set fs"
  from a have "fst (NewLocketConfig env p) = fold store_field fs (DefaultLocketConfig env)"
    by (simp add: NewLocketConfig_decoded)
  then have "LagerConfig (fst (NewLocketConfig env p)) = LagerConfig (DefaultLocketConfig env)"
    using k by (intro LagerConfig_get_field) (simp add: field_fold_absent)
  then show "LagerConfig (fst (NewLocketConfig env p)) = DefaultLagerConfig env"
    by (simp add: DefaultLocketConfig_def)
next
  fix f fs1 fs2
  assume a: "os_Open env p = Inr doc \<and> json_fields env doc = Inr fs"
    and f: "fs = fs1 @ f # fs2 \<and> key_of f \<notin> key_of ` set fs2"
  from a have "fst (NewLocketConfig env p) = fold store_field fs (DefaultLocketConfig env)"
    by (simp add: NewLocketConfig_decoded)
  then show "get_field (key_of f) (fst (NewLocketConfig env p)) = Some f"
    using f field_fold_present [of f fs2 fs1] by simp
qed

theorem NewLocketConfig_errors_and_defaults_witness:
  "NewLocketConfig test_env ''foobar'' =
     (zero_LocketConfig test_env, Some (OtherError ''open: no such file or directory'')) \<and>
   NewLocketConfig test_env ''invalid-json'' =
     (zero_LocketConfig test_env, Some (OtherError ''invalid character'')) \<and>
   snd (NewLocketConfig test_env ''empty-object'') = None \<and>
   DatabaseDriver (fst (NewLocketConfig test_env ''empty-object'')) = ''mysql'' \<and>
   LagerConfig (fst (NewLocketConfig test_env ''empty-object'')) = \<lparr>LogLevel = ''info''\<rparr> \<and>
   get_field ''ca_file'' (fst (NewLocketConfig test_env ''config-file'')) =
     Some (F_ca_file []) \<and>
   get_field ''database_driver'' (fst (NewLocketConfig test_env ''config-file'')) =
     Some (F_database_driver ''postgres'')"
proof -
  let ?fs = "[F_log_level ''debug'', F_listen_address ''1.2.3.4:9090'',
              F_database_driver ''postgres''] :: unit json_field list"
  have missing: "os_Open test_env ''foobar'' = Inl (OtherError ''open: no such file or directory'')"
    by (simp add: test_env_def)
  have broken: "os_Open test_env ''invalid-json'' = Inr ''{{'' \<and>
      json_fields test_env ''{{'' = Inl (OtherError ''invalid character'')"
    by (simp add: test_env_def configData_def)
  have empty: "os_Open test_env ''empty-object'' = Inr ''{}'' \<and>
      json_fields test_env ''{}'' = Inr []"
    by (simp add: test_env_def configData_def)
  have full: "os_Open test_env ''config-file'' = Inr configData \<and>
      json_fields test_env configData = Inr ?fs"
    by (simp add: test_env_def)
  note 1 = NewLocketConfig_errors_and_defaults
      [of test_env "''foobar''" "OtherError ''open: no such file or directory''" "[]" "[]",
       THEN conjunct1, THEN mp, OF missing]
  note 2 = NewLocketConfig_errors_and_defaults
      [of test_env "''invalid-json''" "OtherError ''invalid character''" "''{{''" "[]",
       THEN conjunct2, THEN conjunct1, THEN mp, OF broken]
  note defaults = NewLocketConfig_errors_and_defaults
      [of test_env "''empty-object''" "OtherError []" "''{}''" "[]",
       THEN conjunct2, THEN conjunct2, THEN mp, OF empty]
  note 3 = defaults [THEN conjunct1]
  have 4: "DatabaseDriver (fst (NewLocketConfig test_env ''empty-object'')) = ''mysql''"
    by (rule defaults [THEN conjunct2, THEN conjunct2, THEN conjunct1, THEN mp]) simp
  have "LagerConfig (fst (NewLocketConfig test_env ''empty-object'')) =
      DefaultLagerConfig test_env"
    by (rule defaults [THEN conjunct2, THEN conjunct2, THEN conjunct2, THEN conjunct1, THEN mp])
      simp
  then have 5: "LagerConfig (fst (NewLocketConfig test_env ''empty-object'')) =
      \<lparr>LogLevel = ''info''\<rparr>"
    by (simp add: test_env_def)
  note overridden = NewLocketConfig_errors_and_defaults
      [of test_env "''config-file''" "OtherError []" configData ?fs,
       THEN conjunct2, THEN conjunct2, THEN mp, OF full]
  have "get_field ''ca_file'' (fst (NewLocketConfig test_env ''config-file'')) =
      get_field ''ca_file'' (DefaultLocketConfig test_env)"
    by (rule overridden [THEN conjunct2, THEN conjunct1, THEN spec, THEN mp]) simp
  then have 6: "get_field ''ca_file'' (fst (NewLocketConfig test_env ''config-file'')) =
      Some (F_ca_file [])"
    by (simp add: get_field_def DefaultLocketConfig_def zero_LocketConfig_def)
  have "get_field (key_of (F_database_driver ''postgres'' :: unit json_field))
      (fst (NewLocketConfig test_env ''config-file'')) = Some (F_database_driver ''postgres'')"
    by (rule overridden [THEN conjunct2, THEN conjunct2, THEN conjunct2, THEN conjunct2,
          THEN spec [of _ "F_database_driver ''postgres''"],
          THEN spec [of _ "[F_log_level ''debug'', F_listen_address ''1.2.3.4:9090'']"],
          THEN spec [of _ "[]"], THEN mp]) simp
  then have 7: "get_field ''database_driver'' (fst (NewLocketConfig test_env ''config-file'')) =
     Some (F_database_driver ''postgres'')"
    by simp
  from 1 2 3 4 5 6 7 show ?thesis by (intro conjI)
qed

section \<open>Properties of the lock runner\<close>

lemmas runner_defs = do_actions_def call_lock_def sleep_interval_def

lemma run_Nil: "run r s [] = s"
  by (simp add: run_def)

lemma run_Cons: "run r s (x # xs) = run r (step r s x) xs"
  by (simp add: run_def)

lemma run_snoc: "run r s (xs @ [x]) = step r (run r s xs) x"
  by (simp add: run_def)

lemma run_append: "run r s (xs @ ys) = run r (run r s xs) ys"
  by (simp add: run_def)

text \<open>Invariants of single steps.\<close>

lemma step_acquiring_no_ready:
  "x \<noteq> Lock_returns None \<Longrightarrow> phase s = ACQUIRING \<or> phase s = DONE \<Longrightarrow>
   Close_ready \<notin> set (actions s) \<Longrightarrow>
   (phase (step r s x) = ACQUIRING \<or> phase (step r s x) = DONE) \<and>
   Close_ready \<notin> set (actions (step r s x))"
  by (cases x) (auto simp add: runner_defs Let_def split: option.splits pending.splits)

lemma run_acquiring_no_ready:
  "Lock_returns None \<notin> set sigs \<Longrightarrow> phase s = ACQUIRING \<or> phase s = DONE \<Longrightarrow>
   Close_ready \<notin> set (actions s) \<Longrightarrow>
   (phase (run r s sigs) = ACQUIRING \<or> phase (run r s sigs) = DONE) \<and>
   Close_ready \<notin> set (actions (run r s sigs))"
proof (induction sigs arbitrary: s)
  case Nil
  then show ?case by (simp add: run_Nil)
next
  case (Cons x xs)
  from Cons.prems have x: "x \<noteq> Lock_returns None" and xs: "Lock_returns None \<notin> set xs"
    by auto
  from step_acquiring_no_ready [OF x Cons.prems(2) Cons.prems(3), of r]
  show ?case using Cons.IH [OF xs, of "step r s x"] by (simp add: run_Cons)
qed

lemma step_lock_calls:
  "\<forall>a \<in> set (actions s). is_Call_Lock a \<longrightarrow> a = Call_Lock (resource r) (ttl r) \<Longrightarrow>
   \<forall>a \<in> set (actions (step r s x)). is_Call_Lock a \<longrightarrow> a = Call_Lock (resource r) (ttl r)"
  by (cases x) (auto simp add: runner_defs Let_def split: option.splits pending.splits)

lemma run_lock_calls:
  "\<forall>a \<in> set (actions s). is_Call_Lock a \<longrightarrow> a = Call_Lock (resource r) (ttl r) \<Longrightarrow>
   \<forall>a \<in> set (actions (run r s sigs)). is_Call_Lock a \<longrightarrow> a = Call_Lock (resource r) (ttl r)"
proof (induction sigs arbitrary: s)
  case Nil
  then show ?case by (simp add: run_Nil)
next
  case (Cons x xs)
  from Cons.IH [OF step_lock_calls [OF Cons.prems, of x]] show ?case
    by (simp add: run_Cons)
qed

lemma step_returned:
  "phase s = DONE \<or> phase s = FAILED \<Longrightarrow>
   step r s x = (case x of Clock_increment d \<Rightarrow> s\<lparr>now := now s + d\<rparr> | _ \<Rightarrow> s)"
  by (cases x) (auto simp add: runner_defs Let_def split: option.splits pending.splits)

lemma run_returned:
  "phase s = DONE \<or> phase s = FAILED \<Longrightarrow>
   phase (run r s sigs) = phase s \<and> pending (run r s sigs) = pending s \<and>
   actions (run r s sigs) = actions s"
proof (induction sigs arbitrary: s)
  case Nil
  then show ?case by (simp add: run_Nil)
next
  case (Cons x xs)
  have "pending (step r s x) = pending s \<and> phase (step r s x) = phase s \<and>
      actions (step r s x) = actions s"
    using Cons.prems by (simp add: step_returned split: signal.split)
  then show ?case using Cons.prems Cons.IH [of "step r s x"] by (simp add: run_Cons)
qed

lemma step_releasing:
  "phase s = RELEASING \<or> phase s = DONE \<Longrightarrow>
   (phase (step r s x) = RELEASING \<or> phase (step r s x) = DONE) \<and>
   actions (step r s x) = actions s"
  by (cases x) (auto simp add: runner_defs Let_def split: option.splits pending.splits)

lemma run_releasing:
  "phase s = RELEASING \<or> phase s = DONE \<Longrightarrow>
   (phase (run r s sigs) = RELEASING \<or> phase (run r s sigs) = DONE) \<and>
   actions (run r s sigs) = actions s"
proof (induction sigs arbitrary: s)
  case Nil
  then show ?case by (simp add: run_Nil)
next
  case (Cons x xs)
  from step_releasing [OF Cons.prems, of r x] show ?case
    using Cons.IH [of "step r s x"] by (simp add: run_Cons)
qed

lemma step_from_acquiring_or_holding:
  "phase (step r s x) = ACQUIRING \<or> phase (step r s x) = HOLDING \<Longrightarrow>
   phase s = ACQUIRING \<or> phase s = HOLDING"
  by (cases x) (auto simp add: runner_defs Let_def split: option.splits pending.splits if_splits)

lemma step_keeps_no_release:
  "phase s = ACQUIRING \<or> phase s = HOLDING \<Longrightarrow> filter is_Call_Release (actions s) = [] \<Longrightarrow>
   phase (step r s x) = ACQUIRING \<or> phase (step r s x) = HOLDING \<Longrightarrow>
   filter is_Call_Release (actions (step r s x)) = []"
  by (cases x) (auto simp add: runner_defs Let_def split: option.splits pending.splits if_splits)

lemma run_held_no_release:
  "phase s = ACQUIRING \<or> phase s = HOLDING \<Longrightarrow> filter is_Call_Release (actions s) = [] \<Longrightarrow>
   phase (run r s sigs) = ACQUIRING \<or> phase (run r s sigs) = HOLDING \<Longrightarrow>
   filter is_Call_Release (actions (run r s sigs)) = []"
proof (induction sigs arbitrary: s rule: rev_induct)
  case Nil
  then show ?case by (simp add: run_Nil)
next
  case (snoc x xs)
  let ?s = "run r s xs"
  from snoc.prems(3) have after: "phase (step r ?s x) = ACQUIRING \<or> phase (step r ?s x) = HOLDING"
    by (simp add: run_snoc)
  then have before: "phase ?s = ACQUIRING \<or> phase ?s = HOLDING"
    by (rule step_from_acquiring_or_holding)
  from snoc.IH [OF snoc.prems(1) snoc.prems(2) before]
  have "filter is_Call_Release (actions ?s) = []" .
  from step_keeps_no_release [OF before this after] show ?case
    by (simp add: run_snoc)
qed

lemma start_state:
  "start r t0 =
     \<lparr>phase = ACQUIRING, pending = Lock_in_flight, now = t0,
      actions = [Call_Lock (resource r) (ttl r)]\<rparr>"
  by (simp add: start_def runner_defs)

lemmas test_runner_defs = run_def start_state runner_defs test_runner_def

text \<open>
  Claim C6. While the runner is acquiring with a Lock call in flight: a failed answer makes
  it sleep the retry interval on the clock, without signalling ready; it does not call
  again before the clock has advanced by the interval, and once it has, it calls Lock
  again with the same resource and ttl; a successful answer signals ready and enters
  HOLDING. Over a whole run, ready is not signalled as long as no Lock call has succeeded,
  and every Lock call carries the runner's resource and ttl.
\<close>

theorem runner_retries_until_acquired:
  "(phase s = ACQUIRING \<and> pending s = Lock_in_flight \<longrightarrow>
      step r s (Lock_returns (Some e)) =
        s\<lparr>pending := Asleep_until (now s + retry_interval r),
          actions := actions s @ [Clock_sleep (retry_interval r)]\<rparr> \<and>
      (d < retry_interval r \<longrightarrow>
         run r s [Lock_returns (Some e), Clock_increment d] =
           s\<lparr>pending := Asleep_until (now s + retry_interval r), now := now s + d,
             actions := actions s @ [Clock_sleep (retry_interval r)]\<rparr>) \<and>
      (retry_interval r \<le> d \<longrightarrow>
         run r s [Lock_returns (Some e), Clock_increment d] =
           s\<lparr>pending := Lock_in_flight, now := now s + d,
             actions := actions s @
               [Clock_sleep (retry_interval r), Call_Lock (resource r) (ttl r)]\<rparr>) \<and>
      step r s (Lock_returns None) =
        s\<lparr>phase := HOLDING, pending := Asleep_until (now s + retry_interval r),
          actions := actions s @ [Close_ready, Clock_sleep (retry_interval r)]\<rparr>) \<and>
   (Lock_returns None \<notin> set sigs \<longrightarrow>
      Close_ready \<notin> set (actions (run r (start r t0) sigs))) \<and>
   (\<forall>a \<in> set (actions (run r (start r t0) sigs)).
      is_Call_Lock a \<longrightarrow> a = Call_Lock (resource r) (ttl r))"
proof (intro conjI impI)
  assume "phase s = ACQUIRING \<and> pending s = Lock_in_flight"
  then show "step r s (Lock_returns (Some e)) =
      s\<lparr>pending := Asleep_until (now s + retry_interval r),
        actions := actions s @ [Clock_sleep (retry_interval r)]\<rparr>"
    by (simp add: runner_defs)
next
  assume "phase s = ACQUIRING \<and> pending s = Lock_in_flight" and "d < retry_interval r"
  then show "run r s [Lock_returns (Some e), Clock_increment d] =
      s\<lparr>pending := Asleep_until (now s + retry_interval r), now := now s + d,
        actions := actions s @ [Clock_sleep (retry_interval r)]\<rparr>"
    by (simp add: run_def runner_defs)
next
  assume "phase s = ACQUIRING \<and> pending s = Lock_in_flight" and "retry_interval r \<le> d"
  then show "run r s [Lock_returns (Some e), Clock_increment d] =
      s\<lparr>pending := Lock_in_flight, now := now s + d,
        actions := actions s @
          [Clock_sleep (retry_interval r), Call_Lock (resource r) (ttl r)]\<rparr>"
    by (simp add: run_def runner_defs)
next
  assume "phase s = ACQUIRING \<and> pending s = Lock_in_flight"
  then show "step r s (Lock_returns None) =
      s\<lparr>phase := HOLDING, pending := Asleep_until (now s + retry_interval r),
        actions := actions s @ [Close_ready, Clock_sleep (retry_interval r)]\<rparr>"
    by (simp add: runner_defs)
next
  assume "Lock_returns None \<notin> set sigs"
  from run_acquiring_no_ready [OF this, of "start r t0" r]
  show "Close_ready \<notin> set (actions (run r (start r t0) sigs))"
    by (simp add: start_state)
next
  show "\<forall>a \<in> set (actions (run r (start r t0) sigs)).
      is_Call_Lock a \<longrightarrow> a = Call_Lock (resource r) (ttl r)"
    by (rule run_lock_calls) (simp add: start_state)
qed

theorem runner_retries_until_acquired_witness:
  "phase (start test_runner 0) = ACQUIRING \<and>
   pending (start test_runner 0) = Lock_in_flight \<and>
   actions (run test_runner (start test_runner 0)
     [Lock_returns (Some no_lock_for_you), Clock_increment 1000]) =
     [Call_Lock (Some jim) 5, Clock_sleep 1000, Call_Lock (Some jim) 5] \<and>
   actions (step test_runner (start test_runner 0) (Lock_returns None)) =
     [Call_Lock (Some jim) 5, Close_ready, Clock_sleep 1000] \<and>
   Close_ready \<notin> set (actions (run test_runner (start test_runner 0)
     [Lock_returns (Some no_lock_for_you), Clock_increment 1000,
      Lock_returns (Some no_lock_for_you)]))"
proof -
  have s: "phase (start test_runner 0) = ACQUIRING \<and>
      pending (start test_runner 0) = Lock_in_flight"
    by (simp add: start_state)
  have sigs: "Lock_returns None \<notin> set
      [Lock_returns (Some no_lock_for_you), Clock_increment 1000,
       Lock_returns (Some no_lock_for_you)]"
    by simp
  have d: "retry_interval test_runner \<le> 1000"
    by (simp add: test_runner_def)
  note t = runner_retries_until_acquired
      [of "start test_runner 0" test_runner no_lock_for_you 1000
          "[Lock_returns (Some no_lock_for_you), Clock_increment 1000,
            Lock_returns (Some no_lock_for_you)]" 0]
  note acquiring = t [THEN conjunct1, THEN mp, OF s]
  note retried = acquiring [THEN conjunct2, THEN conjunct2, THEN conjunct1, THEN mp, OF d]
  note acquired = acquiring [THEN conjunct2, THEN conjunct2, THEN conjunct2]
  note not_ready = t [THEN conjunct2, THEN conjunct1, THEN mp, OF sigs]
  from s retried acquired not_ready show ?thesis
    by (simp add: start_state test_runner_def)
qed

text \<open>
  Claim C7. While the runner holds the lock with a renewal in flight, an error answer ends
  it in that very step (at the same reading of the clock, well within one retry interval)
  with that error as its result; whatever the environment does afterwards, it stays
  FAILED with that error and does nothing more: no further Lock call, no sleep.
\<close>

theorem runner_renewal_failure_is_fatal:
  "phase s = HOLDING \<and> pending s = Lock_in_flight \<longrightarrow>
     step r s (Lock_returns (Some e)) = s\<lparr>phase := FAILED, pending := Returned (Some e)\<rparr> \<and>
     phase (run r s (Lock_returns (Some e) # sigs)) = FAILED \<and>
     pending (run r s (Lock_returns (Some e) # sigs)) = Returned (Some e) \<and>
     actions (run r s (Lock_returns (Some e) # sigs)) = actions s"
proof
  assume a: "phase s = HOLDING \<and> pending s = Lock_in_flight"
  then have st: "step r s (Lock_returns (Some e)) = s\<lparr>phase := FAILED, pending := Returned (Some e)\<rparr>"
    by simp
  have "phase (s\<lparr>phase := FAILED, pending := Returned (Some e)\<rparr>) = DONE \<or>
      phase (s\<lparr>phase := FAILED, pending := Returned (Some e)\<rparr>) = FAILED"
    by simp
  from run_returned [OF this, of r sigs] st
  show "step r s (Lock_returns (Some e)) = s\<lparr>phase := FAILED, pending := Returned (Some e)\<rparr> \<and>
     phase (run r s (Lock_returns (Some e) # sigs)) = FAILED \<and>
     pending (run r s (Lock_returns (Some e) # sigs)) = Returned (Some e) \<and>
     actions (run r s (Lock_returns (Some e) # sigs)) = actions s"
    by (simp add: run_Cons)
qed

theorem runner_renewal_failure_is_fatal_witness:
  "run test_runner (start test_runner 0) [Lock_returns None, Clock_increment 1000] =
     \<lparr>phase = HOLDING, pending = Lock_in_flight, now = 1000,
      actions = [Call_Lock (Some jim) 5, Close_ready, Clock_sleep 1000,
                 Call_Lock (Some jim) 5]\<rparr> \<and>
   phase (run test_runner (start test_runner 0)
     ([Lock_returns None, Clock_increment 1000] @
      [Lock_returns (Some no_lock_for_you), Clock_increment 1000, Lock_returns None])) =
     FAILED \<and>
   pending (run test_runner (start test_runner 0)
     ([Lock_returns None, Clock_increment 1000] @
      [Lock_returns (Some no_lock_for_you), Clock_increment 1000, Lock_returns None])) =
     Returned (Some no_lock_for_you) \<and>
   actions (run test_runner (start test_runner 0)
     ([Lock_returns None, Clock_increment 1000] @
      [Lock_returns (Some no_lock_for_you), Clock_increment 1000, Lock_returns None])) =
     [Call_Lock (Some jim) 5, Close_ready, Clock_sleep 1000, Call_Lock (Some jim) 5]"
proof -
  let ?s = "run test_runner (start test_runner 0) [Lock_returns None, Clock_increment 1000]"
  have s: "?s =
     \<lparr>phase = HOLDING, pending = Lock_in_flight, now = 1000,
      actions = [Call_Lock (Some jim) 5, Close_ready, Clock_sleep 1000,
                 Call_Lock (Some jim) 5]\<rparr>"
    by (simp add: test_runner_defs)
  then have holding: "phase ?s = HOLDING \<and> pending ?s = Lock_in_flight"
    by simp
  have split: "run test_runner (start test_runner 0)
      ([Lock_returns None, Clock_increment 1000] @
       [Lock_returns (Some no_lock_for_you), Clock_increment 1000, Lock_returns None]) =
      run test_runner ?s
       [Lock_returns (Some no_lock_for_you), Clock_increment 1000, Lock_returns None]"
    by (rule run_append)
  from runner_renewal_failure_is_fatal
      [of ?s test_runner no_lock_for_you "[Clock_increment 1000, Lock_returns None]",
       THEN mp, OF holding] s
  show ?thesis
    unfolding split by simp
qed

text \<open>
  Claim C8. Cancelling a runner that holds the lock makes it call Release with its
  resource; whatever the Release call answers, the runner then ends in DONE with a nil
  result, and nothing it is sent later makes it act again. In a run from the start that
  is cancelled while HOLDING there is exactly one Release call, for the resource the
  runner locked.
\<close>

theorem runner_cancel_releases_once:
  "(phase s = HOLDING \<longrightarrow>
      step r s Cancel =
        s\<lparr>phase := RELEASING, pending := Release_in_flight,
          actions := actions s @ [Call_Release (resource r)]\<rparr> \<and>
      step r (step r s Cancel) (Release_returns err) =
        s\<lparr>phase := DONE, pending := Returned None,
          actions := actions s @ [Call_Release (resource r)]\<rparr> \<and>
      actions (run r s (Cancel # sigs)) = actions s @ [Call_Release (resource r)]) \<and>
   (phase (run r (start r t0) before) = HOLDING \<longrightarrow>
      filter is_Call_Release (actions (run r (start r t0) (before @ Cancel # sigs))) =
        [Call_Release (resource r)])"
proof (intro conjI impI)
  assume "phase s = HOLDING"
  then show "step r s Cancel =
      s\<lparr>phase := RELEASING, pending := Release_in_flight,
        actions := actions s @ [Call_Release (resource r)]\<rparr>"
    by (simp add: runner_defs)
next
  assume "phase s = HOLDING"
  then show "step r (step r s Cancel) (Release_returns err) =
      s\<lparr>phase := DONE, pending := Returned None,
        actions := actions s @ [Call_Release (resource r)]\<rparr>"
    by (simp add: runner_defs)
next
  assume h: "phase s = HOLDING"
  then have "phase (step r s Cancel) = RELEASING \<or> phase (step r s Cancel) = DONE"
    by (simp add: runner_defs)
  from run_releasing [OF this, of r sigs] h
  show "actions (run r s (Cancel # sigs)) = actions s @ [Call_Release (resource r)]"
    by (simp add: run_Cons runner_defs)
next
  let ?s = "run r (start r t0) before"
  assume h: "phase ?s = HOLDING"
  have "phase (start r t0) = ACQUIRING \<or> phase (start r t0) = HOLDING"
    and "filter is_Call_Release (actions (start r t0)) = []"
    by (simp_all add: start_state)
  from run_held_no_release [OF this, of r before] h
  have "filter is_Call_Release (actions ?s) = []"
    by simp
  moreover from h have "phase (step r ?s Cancel) = RELEASING \<or> phase (step r ?s Cancel) = DONE"
    by (simp add: runner_defs)
  from run_releasing [OF this, of r sigs] h
  have "actions (run r ?s (Cancel # sigs)) = actions ?s @ [Call_Release (resource r)]"
    by (simp add: run_Cons runner_defs)
  ultimately show "filter is_Call_Release (actions (run r (start r t0) (before @ Cancel # sigs))) =
      [Call_Release (resource r)]"
    by (simp add: run_append)
qed

theorem runner_cancel_releases_once_witness:
  "phase (run test_runner (start test_runner 0) [Lock_returns None]) = HOLDING \<and>
   filter is_Call_Release (actions (run test_runner (start test_runner 0)
     ([Lock_returns None] @ Cancel # [Release_returns (Some no_lock_for_you)]))) =
     [Call_Release (Some jim)] \<and>
   phase (step test_runner (step test_runner
       (run test_runner (start test_runner 0) [Lock_returns None]) Cancel)
     (Release_returns (Some no_lock_for_you))) = DONE \<and>
   pending (step test_runner (step test_runner
       (run test_runner (start test_runner 0) [Lock_returns None]) Cancel)
     (Release_returns (Some no_lock_for_you))) = Returned None"
proof -
  let ?s = "run test_runner (start test_runner 0) [Lock_returns None]"
  have holding: "phase ?s = HOLDING"
    by (simp add: test_runner_defs)
  note t = runner_cancel_releases_once
      [of ?s test_runner "Some no_lock_for_you" "[Release_returns (Some no_lock_for_you)]"
          0 "[Lock_returns None]"]
  note released = t [THEN conjunct1, THEN mp, OF holding, THEN conjunct2, THEN conjunct1]
  note once = t [THEN conjunct2, THEN mp, OF holding]
  from holding released once show ?thesis
    by (simp add: test_runner_def)
qed

end
